theory Spec2Isabelle
  imports Main "HOL-Library.Word"
begin

section \<open>Data model\<close>

text \<open>
  A \<open>Buffer\<close> is a sequence of bytes. A TypeScript string is a sequence of UTF-16 code
  units; the model takes one \<open>char\<close> per unit, so that \<open>length\<close>, \<open>take\<close> and \<open>drop\<close>
  count what \<open>lastIndexOf\<close> and \<open>slice\<close> count, and the separator \<open>"."\<close> is one unit.
\<close>

type_synonym Buffer = "8 word list"

text \<open>\<open>interface FileEntry { filename: string; data: Buffer }\<close> of \<open>zip.ts\<close>.\<close>

record FileEntry =
  filename :: string
  data :: Buffer

section \<open>String primitives used by \<open>deduplicateFilenames\<close>\<close>

text \<open>
  The template literal \<open>`${count}`\<close> prints a non-negative integer in decimal, without
  leading zeros. (The counter is a double that holds an integer below \<open>2^53\<close>, where the
  printed text is the exact decimal numeral.)
\<close>

definition digitChar :: "nat \<Rightarrow> char" where
  "digitChar d = ''0123456789'' ! d"

fun showNat :: "nat \<Rightarrow> string" where
  "showNat n = (if n < 10 then [digitChar n] else showNat (n div 10) @ [digitChar (n mod 10)])"

declare showNat.simps [simp del]

text \<open>
  \<open>String.prototype.lastIndexOf\<close> with a one-unit search string: the greatest index that
  holds the unit, or \<open>-1\<close> when there is none. The scan keeps the latest index found.
\<close>

fun lastIndexOf_scan :: "string \<Rightarrow> char \<Rightarrow> int \<Rightarrow> int \<Rightarrow> int" where
  "lastIndexOf_scan [] c i found = found"
| "lastIndexOf_scan (x # xs) c i found =
     lastIndexOf_scan xs c (i + 1) (if x = c then i else found)"

definition lastIndexOf :: "string \<Rightarrow> char \<Rightarrow> int" where
  "lastIndexOf s c = lastIndexOf_scan s c 0 (- 1)"

text \<open>
  \<open>String.prototype.slice(start, end)\<close>: a negative index counts from the end, both
  indices are clamped to the string, and an empty range gives the empty string.
  \<open>slice(start)\<close> runs to the end of the string. (\<open>slice_str\<close> is \<open>slice\<close> with two
  arguments and \<open>sliceFrom\<close> is \<open>slice\<close> with one.)
\<close>

definition sliceIndex :: "string \<Rightarrow> int \<Rightarrow> nat" where
  "sliceIndex s k =
     (let n = int (length s)
      in nat (if k < 0 then max (n + k) 0 else min k n))"

definition slice_str :: "string \<Rightarrow> int \<Rightarrow> int \<Rightarrow> string" where
  "slice_str s start finish =
     (let from = sliceIndex s start; to = sliceIndex s finish
      in take (to - from) (drop from s))"

definition sliceFrom :: "string \<Rightarrow> int \<Rightarrow> string" where
  "sliceFrom s start = drop (sliceIndex s start) s"

section \<open>\<open>deduplicateFilenames\<close>\<close>

text \<open>
  The \<open>for\<close> loop of \<open>deduplicateFilenames\<close>, with its two locals as arguments: the map
  \<open>seenNames\<close> from original names to occurrence counts and the array \<open>result\<close>, which
  grows at its end. \<open>seenNames.get(name) ?? 0\<close> reads an absent key as 0.
\<close>

fun deduplicateFilenames_loop ::
  "(string \<rightharpoonup> nat) \<Rightarrow> FileEntry list \<Rightarrow> FileEntry list \<Rightarrow> FileEntry list" where
  "deduplicateFilenames_loop seenNames result [] = result"
| "deduplicateFilenames_loop seenNames result (file # files) =
     (let count = (case seenNames (filename file) of None \<Rightarrow> 0 | Some c \<Rightarrow> c);
          finalName =
            (if count > 0 then
               (let lastDotIndex = lastIndexOf (filename file) CHR ''.''
                in if lastDotIndex > 0 then
                     (let name = slice_str (filename file) 0 lastDotIndex;
                          ext = sliceFrom (filename file) lastDotIndex
                      in name @ ''_'' @ showNat count @ ext)
                   else filename file @ ''_'' @ showNat count)
             else filename file)
      in deduplicateFilenames_loop
           (seenNames(filename file \<mapsto> count + 1))
           (result @ [\<lparr>filename = finalName, data = data file\<rparr>])
           files)"

definition deduplicateFilenames :: "FileEntry list \<Rightarrow> FileEntry list" where
  "deduplicateFilenames files = deduplicateFilenames_loop Map.empty [] files"

text \<open>
  Proof-side names for the two pieces of one iteration: the name an entry leaves with,
  given the count read from the map, and the count a map gives for a name.
\<close>

definition outputName :: "string \<Rightarrow> nat \<Rightarrow> string" where
  "outputName n count =
     (if count > 0 then
        (if lastIndexOf n CHR ''.'' > 0
         then slice_str n 0 (lastIndexOf n CHR ''.'') @ ''_'' @ showNat count
                @ sliceFrom n (lastIndexOf n CHR ''.'')
         else n @ ''_'' @ showNat count)
      else n)"

definition seenCount :: "(string \<rightharpoonup> nat) \<Rightarrow> string \<Rightarrow> nat" where
  "seenCount seenNames n = (case seenNames n of None \<Rightarrow> 0 | Some c \<Rightarrow> c)"

section \<open>\<open>createZip\<close>\<close>

text \<open>
  \<open>createZip\<close> builds the archive with the JSZip library, which is not part of this
  repository. The model takes the three library calls as parameters: \<open>newZip\<close> for
  \<open>new JSZip()\<close>, \<open>zipFile name bytes z\<close> for \<open>z.file(name, bytes)\<close> and
  \<open>generateAsync\<close> for the serialisation with DEFLATE at level 6. The loop over
  \<open>uniqueFiles\<close> adds the entries in order (the source's local \<open>zip\<close> is \<open>jszip\<close>
  here).
\<close>

fun createZip_loop :: "(string \<Rightarrow> Buffer \<Rightarrow> 'z \<Rightarrow> 'z) \<Rightarrow> 'z \<Rightarrow> FileEntry list \<Rightarrow> 'z" where
  "createZip_loop zipFile jszip [] = jszip"
| "createZip_loop zipFile jszip (file # uniqueFiles) =
     createZip_loop zipFile (zipFile (filename file) (data file) jszip) uniqueFiles"

definition createZip ::
  "'z \<Rightarrow> (string \<Rightarrow> Buffer \<Rightarrow> 'z \<Rightarrow> 'z) \<Rightarrow> ('z \<Rightarrow> Buffer) \<Rightarrow> FileEntry list \<Rightarrow> Buffer" where
  "createZip newZip zipFile generateAsync files =
     (let jszip = newZip;
          uniqueFiles = deduplicateFilenames files;
          jszip' = createZip_loop zipFile jszip uniqueFiles
      in generateAsync jszip')"

section \<open>\<open>withRetry\<close>\<close>

text \<open>
  \<open>withRetry(operation, context, maxRetries = 3)\<close> is the retry wrapper of the Gmail API
  module; the spec calls its third parameter \<open>maxAttempts\<close>.

  What an operation rejects with: an object with an optional numeric \<open>code\<close> and a
  \<open>message\<close>. Status codes are integers.
\<close>

record RemoteError =
  code :: "int option"
  message :: string

text \<open>
  What \<open>withRetry\<close> rejects with: either the very error the operation raised
  (\<open>throw error\<close>) or a fresh \<open>new Error(text)\<close>.
\<close>

datatype thrown = Rethrown RemoteError | NewError string

text \<open>
  \<open>Math.pow(2, attempt) * 1000\<close> is computed in double precision. It is the exact integer
  \<open>125 * 2^(attempt + 3)\<close> as long as that is below \<open>2^1024\<close>, that is up to attempt 1014,
  and \<open>Infinity\<close> from attempt 1015 on.
\<close>

datatype delay = Millis nat | Infinity

definition backoffDelay :: "nat \<Rightarrow> delay" where
  "backoffDelay attempt = (if attempt \<le> 1014 then Millis (2 ^ attempt * 1000) else Infinity)"

text \<open>
  The effects of a call, as a record that the loop threads through: how many times the
  operation has been invoked, the arguments of each \<open>Bun.sleep\<close> in order, and for each
  \<open>console.warn\<close> the values its template interpolates (context, delay, attempt + 1 and
  maxRetries of \<open>"${context}: Retrying in ${delay}ms (attempt ${attempt + 1}/${maxRetries})"\<close>).
\<close>

record effects =
  calls :: nat
  sleeps :: "delay list"
  warnings :: "(string \<times> delay \<times> nat \<times> int) list"

text \<open>
  \<open>`${maxRetries}`\<close> for an integer: decimal digits, with a minus sign when negative.
  (JavaScript prints the exact decimal numeral for integers of magnitude up to \<open>2^53\<close>.)
\<close>

definition showInt :: "int \<Rightarrow> string" where
  "showInt k = (if k < 0 then ''-'' @ showNat (nat (- k)) else showNat (nat k))"

text \<open>
  \<open>statusCode === 429 || (statusCode && statusCode >= 500)\<close>: an absent code and the
  code 0 are falsy.
\<close>

definition retryable :: "int option \<Rightarrow> bool" where
  "retryable statusCode =
     (statusCode = Some 429 \<or>
      (case statusCode of None \<Rightarrow> False | Some c \<Rightarrow> c \<noteq> 0 \<and> c \<ge> 500))"

text \<open>
  An operation is a zero-argument closure that may answer differently each time it is
  called. It is modelled by its answers in order: \<open>operation i\<close> is what invocation
  number \<open>i\<close> (from 0) resolves or rejects with. The loop reads the answer at the current
  value of \<open>calls\<close> and counts the invocation.

  The \<open>for\<close> loop of \<open>withRetry\<close> with its locals \<open>attempt\<close> and \<open>lastError\<close>; the
  result pairs the outcome (\<open>Inl\<close> what is thrown, \<open>Inr\<close> the value returned) with the
  effects. The last equation branch is the \<open>throw\<close> after the loop.
\<close>

function withRetry_loop ::
  "(nat \<Rightarrow> RemoteError + 'a) \<Rightarrow> string \<Rightarrow> int \<Rightarrow> nat \<Rightarrow> RemoteError option \<Rightarrow> effects
     \<Rightarrow> (thrown + 'a) \<times> effects" where
  "withRetry_loop operation ctxt maxRetries attempt lastError w =
     (if int attempt < maxRetries then
        (let w1 = w\<lparr>calls := calls w + 1\<rparr>
         in case operation (calls w) of
              Inr v \<Rightarrow> (Inr v, w1)
            | Inl error \<Rightarrow>
                (let statusCode = code error
                 in if statusCode = Some 404 then
                      (Inl (NewError (ctxt @ '': Resource not found (may have been deleted)'')), w1)
                    else if statusCode = Some 400 then
                      (Inl (NewError (ctxt @ '': Invalid request - '' @ message error)), w1)
                    else if retryable statusCode then
                      (let delay = backoffDelay attempt;
                           w2 = w1\<lparr>warnings := warnings w1 @ [(ctxt, delay, attempt + 1, maxRetries)]\<rparr>;
                           w3 = w2\<lparr>sleeps := sleeps w2 @ [delay]\<rparr>
                       in withRetry_loop operation ctxt maxRetries (attempt + 1) (Some error) w3)
                    else (Inl (Rethrown error), w1)))
      else
        (Inl (NewError (ctxt @ '': Failed after '' @ showInt maxRetries @ '' attempts - ''
                          @ (case lastError of None \<Rightarrow> ''undefined'' | Some e \<Rightarrow> message e))),
         w))"
  by pat_completeness auto
termination
  by (relation "measure (\<lambda>(operation, ctxt, maxRetries, attempt, lastError, w).
                          nat (maxRetries - int attempt))") auto

declare withRetry_loop.simps [simp del]

definition noEffects :: effects where
  "noEffects = \<lparr>calls = 0, sleeps = [], warnings = []\<rparr>"

definition withRetry ::
  "(nat \<Rightarrow> RemoteError + 'a) \<Rightarrow> string \<Rightarrow> int \<Rightarrow> (thrown + 'a) \<times> effects" where
  "withRetry operation ctxt maxRetries = withRetry_loop operation ctxt maxRetries 0 None noEffects"

text \<open>
  An input in which an original name equals a name the loop generates: two attachments
  called \<open>file.txt\<close> followed by one called \<open>file_1.txt\<close>.
\<close>

definition collidingFiles :: "FileEntry list" where
  "collidingFiles =
     [\<lparr>filename = ''file.txt'', data = [1]\<rparr>,
      \<lparr>filename = ''file.txt'', data = [2]\<rparr>,
      \<lparr>filename = ''file_1.txt'', data = [3]\<rparr>]"

declare deduplicateFilenames_loop.simps(2) [simp del]

section \<open>Properties of \<open>deduplicateFilenames\<close>\<close>

subsection \<open>The loop, one entry at a time\<close>


lemma dedup_loop_step:
  "deduplicateFilenames_loop seenNames result (file # files) =
     deduplicateFilenames_loop
       (seenNames(filename file \<mapsto> seenCount seenNames (filename file) + 1))
       (result @ [\<lparr>filename = outputName (filename file) (seenCount seenNames (filename file)),
                   data = data file\<rparr>])
       files"
  by (simp add: deduplicateFilenames_loop.simps(2) Let_def outputName_def seenCount_def)

lemma dedup_loop_result_prefix:
  "deduplicateFilenames_loop seenNames result files =
     result @ deduplicateFilenames_loop seenNames [] files"
proof (induction files arbitrary: seenNames result)
  case Nil
  show ?case by simp
next
  case (Cons f fs)
  show ?case
    unfolding dedup_loop_step
    by (subst Cons.IH, subst (2) Cons.IH) simp
qed

lemma dedup_loop_Cons:
  "deduplicateFilenames_loop seenNames [] (file # files) =
     \<lparr>filename = outputName (filename file) (seenCount seenNames (filename file)),
      data = data file\<rparr>
     # deduplicateFilenames_loop
         (seenNames(filename file \<mapsto> seenCount seenNames (filename file) + 1)) [] files"
  unfolding dedup_loop_step by (subst dedup_loop_result_prefix) simp

lemma dedup_loop_length:
  "length (deduplicateFilenames_loop seenNames [] files) = length files"
  by (induction files arbitrary: seenNames) (simp_all add: dedup_loop_Cons)

lemma dedup_loop_data:
  "map data (deduplicateFilenames_loop seenNames [] files) = map data files"
  by (induction files arbitrary: seenNames) (simp_all add: dedup_loop_Cons)

lemma seenCount_upd:
  "seenCount (seenNames(n \<mapsto> c)) m = (if m = n then c else seenCount seenNames m)"
  by (simp add: seenCount_def)

lemma dedup_loop_nth_filename:
  "i < length files \<Longrightarrow>
   filename (deduplicateFilenames_loop seenNames [] files ! i) =
     outputName (filename (files ! i))
       (seenCount seenNames (filename (files ! i))
          + count_list (map filename (take i files)) (filename (files ! i)))"
proof (induction files arbitrary: seenNames i)
  case Nil
  then show ?case by simp
next
  case (Cons f fs)
  show ?case
  proof (cases i)
    case 0
    then show ?thesis by (simp add: dedup_loop_Cons)
  next
    case (Suc j)
    with Cons.prems have j: "j < length fs" by simp
    let ?seen = "seenNames(filename f \<mapsto> seenCount seenNames (filename f) + 1)"
    let ?n = "filename (fs ! j)"
    have "filename (deduplicateFilenames_loop ?seen [] fs ! j) =
            outputName ?n (seenCount ?seen ?n + count_list (map filename (take j fs)) ?n)"
      by (rule Cons.IH [OF j])
    moreover have "seenCount ?seen ?n + count_list (map filename (take j fs)) ?n =
            seenCount seenNames ?n + count_list (map filename (take (Suc j) (f # fs))) ?n"
      by (simp add: seenCount_upd)
    ultimately show ?thesis
      unfolding Suc dedup_loop_Cons by simp
  qed
qed

lemma scan_absent:
  "c \<notin> set s \<Longrightarrow> lastIndexOf_scan s c i found = found"
  by (induction s arbitrary: i found) auto

lemma scan_append:
  "lastIndexOf_scan (xs @ ys) c i found =
     lastIndexOf_scan ys c (i + int (length xs)) (lastIndexOf_scan xs c i found)"
  by (induction xs arbitrary: i found) (auto simp: algebra_simps)

lemma lastIndexOf_absent: "c \<notin> set s \<Longrightarrow> lastIndexOf s c = - 1"
  by (simp add: lastIndexOf_def scan_absent)

lemma lastIndexOf_split:
  "c \<notin> set rest \<Longrightarrow> lastIndexOf (stem @ c # rest) c = int (length stem)"
  by (simp add: lastIndexOf_def scan_append scan_absent)

lemma slice_prefix:
  "slice_str (stem @ ext) 0 (int (length stem)) = stem"
  by (simp add: slice_str_def sliceIndex_def)

lemma sliceFrom_suffix:
  "sliceFrom (stem @ ext) (int (length stem)) = ext"
  by (simp add: sliceFrom_def sliceIndex_def)

lemma outputName_split:
  assumes "0 < count" "stem \<noteq> []" "CHR ''.'' \<notin> set rest"
  shows "outputName (stem @ ''.'' @ rest) count = stem @ ''_'' @ showNat count @ ''.'' @ rest"
proof -
  have i: "lastIndexOf (stem @ ''.'' @ rest) CHR ''.'' = int (length stem)"
    using lastIndexOf_split [OF assms(3), of stem] by simp
  have "slice_str (stem @ ''.'' @ rest) 0 (int (length stem)) = stem"
    by (rule slice_prefix)
  moreover have "sliceFrom (stem @ ''.'' @ rest) (int (length stem)) = ''.'' @ rest"
    by (rule sliceFrom_suffix)
  ultimately show ?thesis
    using assms(1,2) unfolding outputName_def i by simp
qed

lemma outputName_no_dot:
  assumes "0 < count" "CHR ''.'' \<notin> set n"
  shows "outputName n count = n @ ''_'' @ showNat count"
  using assms by (simp add: outputName_def lastIndexOf_absent)

lemma outputName_leading_dot:
  assumes "0 < count" "CHR ''.'' \<notin> set rest"
  shows "outputName (''.'' @ rest) count = (''.'' @ rest) @ ''_'' @ showNat count"
proof -
  have "lastIndexOf (''.'' @ rest) CHR ''.'' = 0"
    using lastIndexOf_split [OF assms(2), of "[]"] by simp
  then show ?thesis using assms(1) by (simp add: outputName_def)
qed

lemma outputName_zero: "outputName n 0 = n"
  by (simp add: outputName_def)

lemma dedup_length: "length (deduplicateFilenames files) = length files"
  by (simp add: deduplicateFilenames_def dedup_loop_length)

lemma dedup_data: "map data (deduplicateFilenames files) = map data files"
  by (simp add: deduplicateFilenames_def dedup_loop_data)

lemma dedup_nth_filename:
  "i < length files \<Longrightarrow>
   filename (deduplicateFilenames files ! i) =
     outputName (filename (files ! i))
       (count_list (map filename (take i files)) (filename (files ! i)))"
  by (simp add: deduplicateFilenames_def dedup_loop_nth_filename seenCount_def)

subsection \<open>Evaluation on concrete inputs\<close>

lemmas dedup_eval =
  deduplicateFilenames_def deduplicateFilenames_loop.simps Let_def lastIndexOf_def
  slice_str_def sliceFrom_def sliceIndex_def showNat.simps digitChar_def

lemma colliding_dedup:
  "deduplicateFilenames collidingFiles =
     [\<lparr>filename = ''file.txt'', data = [1]\<rparr>,
      \<lparr>filename = ''file_1.txt'', data = [2]\<rparr>,
      \<lparr>filename = ''file_1.txt'', data = [3]\<rparr>]"
  by (simp add: collidingFiles_def dedup_eval)

lemma createZip_dedup_first:
  "createZip newZip zipFile generateAsync files =
     generateAsync (createZip_loop zipFile newZip (deduplicateFilenames files))"
  by (simp add: createZip_def)

lemma dedup_loop_unseen_distinct:
  "distinct (map filename files) \<Longrightarrow> \<forall>f \<in> set files. seenNames (filename f) = None \<Longrightarrow>
   deduplicateFilenames_loop seenNames [] files = files"
proof (induction files arbitrary: seenNames)
  case Nil
  show ?case by simp
next
  case (Cons f fs)
  have "deduplicateFilenames_loop (seenNames(filename f \<mapsto> seenCount seenNames (filename f) + 1)) [] fs = fs"
  proof (rule Cons.IH)
    show "distinct (map filename fs)" using Cons.prems(1) by simp
    show "\<forall>g \<in> set fs. (seenNames(filename f \<mapsto> seenCount seenNames (filename f) + 1)) (filename g) = None"
    proof
      fix g assume g: "g \<in> set fs"
      then have "filename g \<in> set (map filename fs)" by simp
      then have "filename g \<noteq> filename f" using Cons.prems(1) by auto
      then show "(seenNames(filename f \<mapsto> seenCount seenNames (filename f) + 1)) (filename g) = None"
        using Cons.prems(2) g by simp
    qed
  qed
  moreover have "seenCount seenNames (filename f) = 0"
    using Cons.prems(2) by (simp add: seenCount_def)
  ultimately show ?case
    by (simp add: dedup_loop_Cons outputName_zero)
qed

section \<open>Properties of \<open>withRetry\<close>\<close>

subsection \<open>One iteration of the loop, by the branch taken\<close>

lemma retryable_Some: "retryable (Some c) \<longleftrightarrow> c = 429 \<or> c \<ge> 500"
  by (auto simp: retryable_def)

lemma retryable_None: "\<not> retryable None"
  by (simp add: retryable_def)

lemma retry_loop_exhausted:
  "\<not> int attempt < maxRetries \<Longrightarrow>
   withRetry_loop operation ctxt maxRetries attempt lastError w =
     (Inl (NewError (ctxt @ '': Failed after '' @ showInt maxRetries @ '' attempts - ''
                       @ (case lastError of None \<Rightarrow> ''undefined'' | Some e \<Rightarrow> message e))), w)"
  by (subst withRetry_loop.simps) simp

lemma retry_loop_success:
  "int attempt < maxRetries \<Longrightarrow> operation (calls w) = Inr v \<Longrightarrow>
   withRetry_loop operation ctxt maxRetries attempt lastError w = (Inr v, w\<lparr>calls := calls w + 1\<rparr>)"
  by (subst withRetry_loop.simps) (simp add: Let_def)

lemma retry_loop_not_found:
  "int attempt < maxRetries \<Longrightarrow> operation (calls w) = Inl e \<Longrightarrow> code e = Some 404 \<Longrightarrow>
   withRetry_loop operation ctxt maxRetries attempt lastError w =
     (Inl (NewError (ctxt @ '': Resource not found (may have been deleted)'')),
      w\<lparr>calls := calls w + 1\<rparr>)"
  by (subst withRetry_loop.simps) (simp add: Let_def)

lemma retry_loop_invalid_request:
  "int attempt < maxRetries \<Longrightarrow> operation (calls w) = Inl e \<Longrightarrow> code e = Some 400 \<Longrightarrow>
   withRetry_loop operation ctxt maxRetries attempt lastError w =
     (Inl (NewError (ctxt @ '': Invalid request - '' @ message e)), w\<lparr>calls := calls w + 1\<rparr>)"
  by (subst withRetry_loop.simps) (simp add: Let_def)

lemma retry_loop_retry:
  "int attempt < maxRetries \<Longrightarrow> operation (calls w) = Inl e \<Longrightarrow>
   code e = Some c \<Longrightarrow> c = 429 \<or> c \<ge> 500 \<Longrightarrow>
   withRetry_loop operation ctxt maxRetries attempt lastError w =
     withRetry_loop operation ctxt maxRetries (attempt + 1) (Some e)
       (w\<lparr>calls := calls w + 1,
          warnings := warnings w @ [(ctxt, backoffDelay attempt, attempt + 1, maxRetries)],
          sleeps := sleeps w @ [backoffDelay attempt]\<rparr>)"
  by (subst withRetry_loop.simps) (auto simp: Let_def retryable_Some)

lemma retry_loop_rethrow:
  "int attempt < maxRetries \<Longrightarrow> operation (calls w) = Inl e \<Longrightarrow>
   code e \<noteq> Some 404 \<Longrightarrow> code e \<noteq> Some 400 \<Longrightarrow> \<not> retryable (code e) \<Longrightarrow>
   withRetry_loop operation ctxt maxRetries attempt lastError w =
     (Inl (Rethrown e), w\<lparr>calls := calls w + 1\<rparr>)"
  by (subst withRetry_loop.simps) (simp add: Let_def)

lemma retry_loop_retries_then_success:
  assumes "\<forall>i<k. \<exists>e c. operation (calls w + i) = Inl e \<and> code e = Some c \<and> (c = 429 \<or> c \<ge> 500)"
    and "operation (calls w + k) = Inr v"
    and "int (attempt + k) < maxRetries"
  shows "fst (withRetry_loop operation ctxt maxRetries attempt lastError w) = Inr v \<and>
         calls (snd (withRetry_loop operation ctxt maxRetries attempt lastError w)) = calls w + k + 1"
  using assms
proof (induction k arbitrary: attempt lastError w)
  case 0
  then show ?case by (simp add: retry_loop_success)
next
  case (Suc k)
  from Suc.prems(1) obtain e c where
    e: "operation (calls w) = Inl e" "code e = Some c" "c = 429 \<or> c \<ge> 500"
    by force
  let ?w = "w\<lparr>calls := calls w + 1,
          warnings := warnings w @ [(ctxt, backoffDelay attempt, attempt + 1, maxRetries)],
          sleeps := sleeps w @ [backoffDelay attempt]\<rparr>"
  have step: "withRetry_loop operation ctxt maxRetries attempt lastError w =
     withRetry_loop operation ctxt maxRetries (attempt + 1) (Some e) ?w"
    using Suc.prems(3) e by (intro retry_loop_retry) auto
  have 1: "\<forall>i<k. \<exists>e c. operation (calls ?w + i) = Inl e \<and> code e = Some c \<and> (c = 429 \<or> c \<ge> 500)"
  proof (intro allI impI)
    fix i assume "i < k"
    then have "Suc i < Suc k" by simp
    with Suc.prems(1) have "\<exists>e c. operation (calls w + Suc i) = Inl e \<and> code e = Some c \<and> (c = 429 \<or> c \<ge> 500)"
      by blast
    then show "\<exists>e c. operation (calls ?w + i) = Inl e \<and> code e = Some c \<and> (c = 429 \<or> c \<ge> 500)"
      by simp
  qed
  have 2: "operation (calls ?w + k) = Inr v" using Suc.prems(2) by simp
  have 3: "int (attempt + 1 + k) < maxRetries" using Suc.prems(3) by simp
  show ?case
    unfolding step using Suc.IH [OF 1 2 3] by simp
qed


lemmas show_eval = showInt_def showNat.simps digitChar_def

lemma showNat_examples:
  "showNat 0 = ''0''" "showNat 7 = ''7''" "showNat 10 = ''10''" "showNat 4096 = ''4096''"
  by (simp_all add: show_eval)

lemma showInt_examples:
  "showInt 3 = ''3''" "showInt 0 = ''0''" "showInt (- 12) = ''-12''"
  by (simp_all add: show_eval)

section \<open>The claims\<close>

text \<open>
  \<^bold>\<open>C1\<close>. The output of \<open>deduplicateFilenames\<close> has the length and the order of its
  input (\<open>dedup_length\<close>, \<open>dedup_data\<close>), but its names are not always pairwise distinct:
  the counter is keyed by the original name only, so a generated name can equal a later
  (or earlier) original name. On \<open>file.txt\<close>, \<open>file.txt\<close>, \<open>file_1.txt\<close> the second and the
  third entry both leave as \<open>file_1.txt\<close>, against the function's own documentation
  ("Array of file entries with unique filenames").
\<close>

theorem deduplicateFilenames_collision:
  "length (deduplicateFilenames collidingFiles) = length collidingFiles
   \<and> map filename (deduplicateFilenames collidingFiles) = [''file.txt'', ''file_1.txt'', ''file_1.txt'']
   \<and> \<not> distinct (map filename (deduplicateFilenames collidingFiles))"
  by (simp add: colliding_dedup) (simp add: collidingFiles_def)

text \<open>
  \<^bold>\<open>C2\<close>, as stated, at one concrete operation: with \<open>maxRetries = 1\<close> and an operation
  that always fails with code 429, one backoff delay of 1000 ms is incurred, because the
  loop sleeps after every retryable failure, the last one included.
\<close>

theorem withRetry_single_attempt_sleeps:
  "sleeps (snd (withRetry
      (\<lambda>i. Inl \<lparr>code = Some 429, message = ''Rate limited''\<rparr> :: RemoteError + string)
      ''test operation'' 1)) = [Millis 1000]
   \<and> sleeps (snd (withRetry
      (\<lambda>i. Inl \<lparr>code = Some 429, message = ''Rate limited''\<rparr> :: RemoteError + string)
      ''test operation'' 1)) \<noteq> []"
  by (simp add: withRetry_def noEffects_def withRetry_loop.simps [of _ _ 1] retryable_def
        backoffDelay_def Let_def)

text \<open>
  \<^bold>\<open>C2\<close>, amended. With \<open>maxRetries = 1\<close> and a first invocation that fails with a
  retryable status code (429 or at least 500), the operation is invoked exactly once,
  exactly one suspension of 1000 ms takes place after the failed attempt, and the call
  fails with \<open>"<context>: Failed after 1 attempts - <message of the error>"\<close>.
\<close>

theorem withRetry_single_attempt:
  assumes "operation 0 = Inl e" and "code e = Some c" and "c = 429 \<or> c \<ge> 500"
  shows "withRetry operation ctxt 1 =
           (Inl (NewError (ctxt @ '': Failed after 1 attempts - '' @ message e)),
            \<lparr>calls = 1, sleeps = [Millis 1000], warnings = [(ctxt, Millis 1000, 1, 1)]\<rparr>)"
proof -
  let ?w1 = "\<lparr>calls = 1, sleeps = [Millis 1000], warnings = [(ctxt, Millis 1000, 1, 1)]\<rparr>"
  have "withRetry operation ctxt 1 = withRetry_loop operation ctxt 1 1 (Some e) ?w1"
    unfolding withRetry_def
    by (subst retry_loop_retry [where e = e and c = c])
       (simp_all add: noEffects_def assms backoffDelay_def)
  also have "\<dots> = (Inl (NewError (ctxt @ '': Failed after 1 attempts - '' @ message e)), ?w1)"
    by (subst retry_loop_exhausted) (simp_all add: show_eval)
  finally show ?thesis .
qed

theorem withRetry_single_attempt_witness:
  "withRetry (\<lambda>i. Inl \<lparr>code = Some 503, message = ''Service unavailable''\<rparr> :: RemoteError + string)
       ''test operation'' 1 =
     (Inl (NewError ''test operation: Failed after 1 attempts - Service unavailable''),
      \<lparr>calls = 1, sleeps = [Millis 1000], warnings = [(''test operation'', Millis 1000, 1, 1)]\<rparr>)"
  using withRetry_single_attempt
      [of "\<lambda>i. Inl \<lparr>code = Some 503, message = ''Service unavailable''\<rparr>"
          "\<lparr>code = Some 503, message = ''Service unavailable''\<rparr>" 503 "''test operation''"]
  by simp

text \<open>
  \<^bold>\<open>C3\<close>. When every invocation fails with status code 429, \<open>withRetry\<close> with
  \<open>maxRetries = 3\<close> invokes the operation exactly 3 times, suspends exactly 3 times, for
  1000 ms, 2000 ms and 4000 ms in that order (\<open>2^i * 1000\<close> for attempt \<open>i\<close>), and then fails
  with \<open>"<context>: Failed after 3 attempts - <message of the last error>"\<close>, the last error
  being the one of the third invocation.
\<close>

theorem withRetry_429_three_attempts:
  assumes "\<forall>i. \<exists>e. operation i = Inl e \<and> code e = Some 429"
  shows "\<exists>e. operation 2 = Inl e \<and>
           withRetry operation ctxt 3 =
             (Inl (NewError (ctxt @ '': Failed after 3 attempts - '' @ message e)),
              \<lparr>calls = 3,
               sleeps = [Millis 1000, Millis 2000, Millis 4000],
               warnings = [(ctxt, Millis 1000, 1, 3), (ctxt, Millis 2000, 2, 3),
                           (ctxt, Millis 4000, 3, 3)]\<rparr>)
       \<and> [Millis 1000, Millis 2000, Millis 4000] = map (\<lambda>i. Millis (2 ^ i * 1000)) [0, 1, 2]"
proof -
  from assms obtain e0 where e0: "operation 0 = Inl e0" "code e0 = Some 429" by blast
  from assms obtain e1 where e1: "operation 1 = Inl e1" "code e1 = Some 429" by blast
  from assms obtain e2 where e2: "operation 2 = Inl e2" "code e2 = Some 429" by blast
  let ?w1 = "\<lparr>calls = 1, sleeps = [Millis 1000], warnings = [(ctxt, Millis 1000, 1, 3)]\<rparr>"
  let ?w2 = "\<lparr>calls = 2, sleeps = [Millis 1000, Millis 2000],
              warnings = [(ctxt, Millis 1000, 1, 3), (ctxt, Millis 2000, 2, 3)]\<rparr>"
  let ?w3 = "\<lparr>calls = 3, sleeps = [Millis 1000, Millis 2000, Millis 4000],
              warnings = [(ctxt, Millis 1000, 1, 3), (ctxt, Millis 2000, 2, 3),
                          (ctxt, Millis 4000, 3, 3)]\<rparr>"
  have "withRetry operation ctxt 3 = withRetry_loop operation ctxt 3 1 (Some e0) ?w1"
    unfolding withRetry_def
    by (subst retry_loop_retry [where e = e0 and c = 429])
       (simp_all add: noEffects_def e0 backoffDelay_def)
  also have "\<dots> = withRetry_loop operation ctxt 3 2 (Some e1) ?w2"
    by (subst retry_loop_retry [where e = e1 and c = 429])
       (insert e1, simp_all add: backoffDelay_def numeral_2_eq_2)
  also have "\<dots> = withRetry_loop operation ctxt 3 3 (Some e2) ?w3"
    by (subst retry_loop_retry [where e = e2 and c = 429])
       (insert e2, simp_all add: backoffDelay_def numeral_2_eq_2 numeral_3_eq_3)
  also have "\<dots> = (Inl (NewError (ctxt @ '': Failed after 3 attempts - '' @ message e2)), ?w3)"
    by (subst retry_loop_exhausted) (simp_all add: show_eval)
  finally show ?thesis using e2(1) by simp
qed

theorem withRetry_429_three_attempts_witness:
  "withRetry (\<lambda>i. Inl \<lparr>code = Some 429, message = ''Rate limited''\<rparr> :: RemoteError + string)
       ''test operation'' 3 =
     (Inl (NewError ''test operation: Failed after 3 attempts - Rate limited''),
      \<lparr>calls = 3,
       sleeps = [Millis 1000, Millis 2000, Millis 4000],
       warnings = [(''test operation'', Millis 1000, 1, 3), (''test operation'', Millis 2000, 2, 3),
                   (''test operation'', Millis 4000, 3, 3)]\<rparr>)"
  using withRetry_429_three_attempts
      [of "\<lambda>i. Inl \<lparr>code = Some 429, message = ''Rate limited''\<rparr>" "''test operation''"]
  by simp

text \<open>
  \<^bold>\<open>C4\<close>. An entry whose original name has occurred \<open>count > 0\<close> times before it leaves
  under a suffixed name: when the name splits at its last dot into a non-empty stem and an
  extension, the output is stem, \<open>_\<close>, the count in decimal, and the extension with its dot;
  when the name has no dot, or its only dot is at index 0, the output is the name, \<open>_\<close> and
  the count. The payload is untouched. A second \<open>archive.tar.gz\<close> becomes
  \<open>archive.tar_1.gz\<close>.
\<close>

theorem dedup_suffix_rule:
  assumes "files = pre @ entry # post"
    and "count = count_list (map filename pre) (filename entry)"
    and "0 < count"
  shows "(\<forall>stem rest. filename entry = stem @ ''.'' @ rest \<and> stem \<noteq> [] \<and> CHR ''.'' \<notin> set rest \<longrightarrow>
            filename (deduplicateFilenames files ! length pre) =
              stem @ ''_'' @ showNat count @ ''.'' @ rest)
       \<and> (CHR ''.'' \<notin> set (filename entry) \<or>
            (\<exists>rest. filename entry = ''.'' @ rest \<and> CHR ''.'' \<notin> set rest) \<longrightarrow>
            filename (deduplicateFilenames files ! length pre) =
              filename entry @ ''_'' @ showNat count)
       \<and> data (deduplicateFilenames files ! length pre) = data entry
       \<and> map filename (deduplicateFilenames
            [\<lparr>filename = ''archive.tar.gz'', data = d1\<rparr>,
             \<lparr>filename = ''archive.tar.gz'', data = d2\<rparr>]) =
           [''archive.tar.gz'', ''archive.tar_1.gz'']"
proof -
  have len: "length pre < length files" using assms(1) by simp
  have name: "filename (deduplicateFilenames files ! length pre) = outputName (filename entry) count"
    using dedup_nth_filename [OF len] assms(1,2) by simp
  have "data (deduplicateFilenames files ! length pre) = map data (deduplicateFilenames files) ! length pre"
    using len by (simp add: dedup_length)
  then have dat: "data (deduplicateFilenames files ! length pre) = data entry"
    using assms(1) by (simp add: dedup_data nth_append)
  have ex: "map filename (deduplicateFilenames
            [\<lparr>filename = ''archive.tar.gz'', data = d1\<rparr>,
             \<lparr>filename = ''archive.tar.gz'', data = d2\<rparr>]) =
           [''archive.tar.gz'', ''archive.tar_1.gz'']"
    by (simp add: dedup_eval)
  have split: "filename (deduplicateFilenames files ! length pre) =
                 stem @ ''_'' @ showNat count @ ''.'' @ rest"
    if "filename entry = stem @ ''.'' @ rest" "stem \<noteq> []" "CHR ''.'' \<notin> set rest" for stem rest
    unfolding name that(1) by (rule outputName_split [OF assms(3) that(2,3)])
  have plain: "filename (deduplicateFilenames files ! length pre) =
                 filename entry @ ''_'' @ showNat count"
    if "CHR ''.'' \<notin> set (filename entry) \<or>
        (\<exists>rest. filename entry = ''.'' @ rest \<and> CHR ''.'' \<notin> set rest)"
    using that
  proof
    assume "CHR ''.'' \<notin> set (filename entry)"
    then show ?thesis unfolding name by (rule outputName_no_dot [OF assms(3)])
  next
    assume "\<exists>rest. filename entry = ''.'' @ rest \<and> CHR ''.'' \<notin> set rest"
    then obtain rest where r: "filename entry = ''.'' @ rest" "CHR ''.'' \<notin> set rest" by blast
    show ?thesis unfolding name r(1) by (rule outputName_leading_dot [OF assms(3) r(2)])
  qed
  from split plain dat ex show ?thesis by blast
qed

theorem dedup_suffix_rule_witness:
  "filename (deduplicateFilenames
      [\<lparr>filename = ''doc.pdf'', data = [1]\<rparr>, \<lparr>filename = ''doc.pdf'', data = [2]\<rparr>,
       \<lparr>filename = ''doc.pdf'', data = [3]\<rparr>] ! 2) = ''doc_2.pdf''
   \<and> filename (deduplicateFilenames
      [\<lparr>filename = ''.gitignore'', data = [1]\<rparr>, \<lparr>filename = ''.gitignore'', data = [2]\<rparr>] ! 1)
       = ''.gitignore_1''"
proof -
  let ?doc1 = "\<lparr>filename = ''doc.pdf'', data = [1]\<rparr>"
  let ?doc2 = "\<lparr>filename = ''doc.pdf'', data = [2]\<rparr>"
  let ?doc3 = "\<lparr>filename = ''doc.pdf'', data = [3]\<rparr>"
  let ?git1 = "\<lparr>filename = ''.gitignore'', data = [1]\<rparr>"
  let ?git2 = "\<lparr>filename = ''.gitignore'', data = [2]\<rparr>"
  have two: "(0::nat) < 2" and one: "(0::nat) < 1" by simp_all
  have h1: "[?doc1, ?doc2, ?doc3] = [?doc1, ?doc2] @ ?doc3 # []" by simp
  have c1: "(2::nat) = count_list (map filename [?doc1, ?doc2]) (filename ?doc3)" by simp
  have h2: "[?git1, ?git2] = [?git1] @ ?git2 # []" by simp
  have c2: "(1::nat) = count_list (map filename [?git1]) (filename ?git2)" by simp
  have "\<forall>stem rest. filename ?doc3 = stem @ ''.'' @ rest \<and> stem \<noteq> [] \<and> CHR ''.'' \<notin> set rest \<longrightarrow>
          filename (deduplicateFilenames [?doc1, ?doc2, ?doc3] ! length [?doc1, ?doc2]) =
            stem @ ''_'' @ showNat 2 @ ''.'' @ rest"
    using dedup_suffix_rule [OF h1 c1 two] by (rule conjunct1)
  then have "filename ?doc3 = ''doc'' @ ''.'' @ ''pdf'' \<and> ''doc'' \<noteq> [] \<and> CHR ''.'' \<notin> set ''pdf'' \<longrightarrow>
          filename (deduplicateFilenames [?doc1, ?doc2, ?doc3] ! length [?doc1, ?doc2]) =
            ''doc'' @ ''_'' @ showNat 2 @ ''.'' @ ''pdf''"
    by blast
  then have a: "filename (deduplicateFilenames [?doc1, ?doc2, ?doc3] ! 2) = ''doc_2.pdf''"
    by (simp add: showNat.simps digitChar_def numeral_2_eq_2)
  have "CHR ''.'' \<notin> set (filename ?git2) \<or>
          (\<exists>rest. filename ?git2 = ''.'' @ rest \<and> CHR ''.'' \<notin> set rest) \<longrightarrow>
          filename (deduplicateFilenames [?git1, ?git2] ! length [?git1]) =
            filename ?git2 @ ''_'' @ showNat 1"
    using dedup_suffix_rule [OF h2 c2 one] by blast
  moreover have "\<exists>rest. filename ?git2 = ''.'' @ rest \<and> CHR ''.'' \<notin> set rest"
    by (rule exI [of _ "''gitignore''"]) simp
  ultimately have b: "filename (deduplicateFilenames [?git1, ?git2] ! 1) = ''.gitignore_1''"
    by (simp add: showNat.simps digitChar_def)
  from a b show ?thesis by simp
qed

text \<open>
  \<^bold>\<open>C5\<close>. When the first invocation fails with status code 404, the operation is invoked
  exactly once, nothing is slept or warned, and the call fails with
  \<open>"<context>: Resource not found (may have been deleted)"\<close>; with status code 400 likewise,
  and the message is \<open>"<context>: Invalid request - <original message>"\<close>. A first invocation
  takes place when \<open>maxRetries\<close> is at least 1.
\<close>

theorem withRetry_not_found_invalid_request:
  assumes "0 < maxRetries" and "operation 0 = Inl e"
  shows "(code e = Some 404 \<longrightarrow>
            withRetry operation ctxt maxRetries =
              (Inl (NewError (ctxt @ '': Resource not found (may have been deleted)'')),
               \<lparr>calls = 1, sleeps = [], warnings = []\<rparr>))
       \<and> (code e = Some 400 \<longrightarrow>
            withRetry operation ctxt maxRetries =
              (Inl (NewError (ctxt @ '': Invalid request - '' @ message e)),
               \<lparr>calls = 1, sleeps = [], warnings = []\<rparr>))"
  using assms
  by (simp add: withRetry_def noEffects_def retry_loop_not_found retry_loop_invalid_request)

theorem withRetry_not_found_invalid_request_witness:
  "withRetry (\<lambda>i. Inl \<lparr>code = Some 404, message = ''Not found''\<rparr> :: RemoteError + string)
       ''test operation'' 3 =
     (Inl (NewError ''test operation: Resource not found (may have been deleted)''),
      \<lparr>calls = 1, sleeps = [], warnings = []\<rparr>)
   \<and> withRetry (\<lambda>i. Inl \<lparr>code = Some 400, message = ''Bad request''\<rparr> :: RemoteError + string)
       ''test operation'' 3 =
     (Inl (NewError ''test operation: Invalid request - Bad request''),
      \<lparr>calls = 1, sleeps = [], warnings = []\<rparr>)"
  using withRetry_not_found_invalid_request
      [of 3 "\<lambda>i. Inl \<lparr>code = Some 404, message = ''Not found''\<rparr>"
          "\<lparr>code = Some 404, message = ''Not found''\<rparr>" "''test operation''"]
    withRetry_not_found_invalid_request
      [of 3 "\<lambda>i. Inl \<lparr>code = Some 400, message = ''Bad request''\<rparr>"
          "\<lparr>code = Some 400, message = ''Bad request''\<rparr>" "''test operation''"]
  by simp

text \<open>
  \<^bold>\<open>C6\<close>. When the first invocation fails with no status code, or with a code below 500
  other than 400, 404 and 429, the operation is invoked exactly once, nothing is slept or
  warned, and the very error of the operation is thrown again. A first invocation takes
  place when \<open>maxRetries\<close> is at least 1.
\<close>

theorem withRetry_unclassified_rethrown:
  assumes "0 < maxRetries" and "operation 0 = Inl e"
    and "code e = None \<or> (\<exists>c. code e = Some c \<and> c \<notin> {400, 404, 429} \<and> c < 500)"
  shows "withRetry operation ctxt maxRetries =
           (Inl (Rethrown e), \<lparr>calls = 1, sleeps = [], warnings = []\<rparr>)"
proof -
  have "code e \<noteq> Some 404" "code e \<noteq> Some 400" "\<not> retryable (code e)"
    using assms(3) by (auto simp: retryable_Some retryable_None)
  then show ?thesis
    using assms(1,2) by (simp add: withRetry_def noEffects_def retry_loop_rethrow)
qed

theorem withRetry_unclassified_rethrown_witness:
  "withRetry (\<lambda>i. Inl \<lparr>code = None, message = ''Unknown error''\<rparr> :: RemoteError + string)
       ''test operation'' 3 =
     (Inl (Rethrown \<lparr>code = None, message = ''Unknown error''\<rparr>),
      \<lparr>calls = 1, sleeps = [], warnings = []\<rparr>)
   \<and> withRetry (\<lambda>i. Inl \<lparr>code = Some 403, message = ''Forbidden''\<rparr> :: RemoteError + string)
       ''test operation'' 3 =
     (Inl (Rethrown \<lparr>code = Some 403, message = ''Forbidden''\<rparr>),
      \<lparr>calls = 1, sleeps = [], warnings = []\<rparr>)"
  using withRetry_unclassified_rethrown
      [of 3 "\<lambda>i. Inl \<lparr>code = None, message = ''Unknown error''\<rparr>"
          "\<lparr>code = None, message = ''Unknown error''\<rparr>" "''test operation''"]
    withRetry_unclassified_rethrown
      [of 3 "\<lambda>i. Inl \<lparr>code = Some 403, message = ''Forbidden''\<rparr>"
          "\<lparr>code = Some 403, message = ''Forbidden''\<rparr>" "''test operation''"]
  by simp

text \<open>
  \<^bold>\<open>C7\<close>. When the first \<open>k\<close> invocations fail with retryable status codes, invocation
  \<open>k\<close> succeeds and \<open>k < maxRetries\<close>, the call returns that success value and the operation
  has been invoked exactly \<open>k + 1\<close> times. The instance at \<open>k = 1\<close> with one failure of code
  500 follows it: two invocations, and the success value returned.
\<close>

theorem withRetry_success_after_retries:
  assumes "\<forall>i<k. \<exists>e c. operation i = Inl e \<and> code e = Some c \<and> (c = 429 \<or> c \<ge> 500)"
    and "operation k = Inr v"
    and "int k < maxRetries"
  shows "fst (withRetry operation ctxt maxRetries) = Inr v \<and>
         calls (snd (withRetry operation ctxt maxRetries)) = k + 1"
  unfolding withRetry_def
  using retry_loop_retries_then_success [of k operation noEffects v 0 maxRetries ctxt None] assms
  by (simp add: noEffects_def)

theorem withRetry_success_after_retries_witness:
  "fst (withRetry (\<lambda>i. if i = 0 then Inl \<lparr>code = Some 500, message = ''Server error''\<rparr>
                         else Inr ''success'') ''test operation'' 3) = Inr ''success'' \<and>
   calls (snd (withRetry (\<lambda>i. if i = 0 then Inl \<lparr>code = Some 500, message = ''Server error''\<rparr>
                         else Inr ''success'') ''test operation'' 3)) = 2"
  using withRetry_success_after_retries
    [of 1 "\<lambda>i. if i = 0 then Inl \<lparr>code = Some 500, message = ''Server error''\<rparr> else Inr ''success''"
        "''success''" 3 "''test operation''"]
  by simp

text \<open>
  \<^bold>\<open>C8\<close>. \<open>createZip\<close> runs \<open>deduplicateFilenames\<close> first (\<open>createZip_dedup_first\<close>) and adds
  every resulting entry under its output name. On the colliding input the second and the
  third entry are both added as \<open>file_1.txt\<close> with different payloads. Whatever the archive
  library does and however an entry is extracted by name from the produced bytes,
  extraction cannot give back both payloads: the round trip fails for one of the two.
\<close>

theorem createZip_collision:
  "createZip newZip zipFile generateAsync collidingFiles =
     generateAsync (zipFile ''file_1.txt'' [3] (zipFile ''file_1.txt'' [2] (zipFile ''file.txt'' [1] newZip)))
   \<and> \<not> (extract (createZip newZip zipFile generateAsync collidingFiles)
             (filename (deduplicateFilenames collidingFiles ! 1)) = Some (data (collidingFiles ! 1))
         \<and> extract (createZip newZip zipFile generateAsync collidingFiles)
             (filename (deduplicateFilenames collidingFiles ! 2)) = Some (data (collidingFiles ! 2)))"
  by (simp add: createZip_dedup_first colliding_dedup) (simp add: collidingFiles_def)

text \<open>
  \<^bold>\<open>C9\<close>, as stated, at \<open>maxRetries = -1\<close>: the operation is not invoked, and the message
  names the value passed, \<open>-1\<close>, not \<open>0\<close>.
\<close>

theorem withRetry_negative_attempts_message:
  "fst (withRetry (\<lambda>i. Inr ''success'') ''test operation'' (- 1)) =
     Inl (NewError ''test operation: Failed after -1 attempts - undefined'')
   \<and> fst (withRetry (\<lambda>i. Inr ''success'') ''test operation'' (- 1)) \<noteq>
     Inl (NewError ''test operation: Failed after 0 attempts - undefined'')"
  by (simp add: withRetry_def retry_loop_exhausted show_eval)

text \<open>
  \<^bold>\<open>C9\<close>, amended. For every operation and context, with an integer \<open>maxRetries \<le> 0\<close>
  (in the range where JavaScript prints an integer exactly) the operation is invoked zero
  times, nothing is slept or warned, and the call fails with
  \<open>"<context>: Failed after <maxRetries> attempts - undefined"\<close>; with \<open>maxRetries = 0\<close> this
  reads \<open>"<context>: Failed after 0 attempts - undefined"\<close>.
\<close>

theorem withRetry_no_attempts:
  assumes "maxRetries \<le> 0" and "- (2 ^ 53) \<le> maxRetries"
  shows "withRetry operation ctxt maxRetries =
           (Inl (NewError (ctxt @ '': Failed after '' @ showInt maxRetries @ '' attempts - undefined'')),
            \<lparr>calls = 0, sleeps = [], warnings = []\<rparr>)
       \<and> withRetry operation ctxt 0 =
           (Inl (NewError (ctxt @ '': Failed after 0 attempts - undefined'')),
            \<lparr>calls = 0, sleeps = [], warnings = []\<rparr>)"
proof -
  have "showInt 0 = ''0''" by (simp add: show_eval)
  then show ?thesis
    using assms(1) by (simp add: withRetry_def retry_loop_exhausted noEffects_def)
qed

theorem withRetry_no_attempts_witness:
  "withRetry (\<lambda>i. Inr ''success'') ''test operation'' (- 2) =
     (Inl (NewError ''test operation: Failed after -2 attempts - undefined''),
      \<lparr>calls = 0, sleeps = [], warnings = []\<rparr>)
   \<and> withRetry (\<lambda>i. Inr ''success'') ''test operation'' 0 =
     (Inl (NewError ''test operation: Failed after 0 attempts - undefined''),
      \<lparr>calls = 0, sleeps = [], warnings = []\<rparr>)"
  using withRetry_no_attempts [of "- 2" "\<lambda>i. Inr ''success''" "''test operation''"]
  by (simp add: show_eval)

text \<open>
  \<^bold>\<open>C10\<close>. Names are compared by equality of the strings, unit by unit: when the names
  of the input are pairwise distinct, every entry is output unchanged. \<open>File.txt\<close> and
  \<open>file.txt\<close> are distinct names.
\<close>

theorem dedup_distinct_names_unchanged:
  assumes "distinct (map filename files)"
  shows "deduplicateFilenames files = files"
  using assms by (simp add: deduplicateFilenames_def dedup_loop_unseen_distinct)

theorem dedup_distinct_names_unchanged_witness:
  "distinct (map filename
     [\<lparr>filename = ''File.txt'', data = [1]\<rparr>, \<lparr>filename = ''file.txt'', data = [2]\<rparr>]) \<and>
   deduplicateFilenames
     [\<lparr>filename = ''File.txt'', data = [1]\<rparr>, \<lparr>filename = ''file.txt'', data = [2]\<rparr>] =
     [\<lparr>filename = ''File.txt'', data = [1]\<rparr>, \<lparr>filename = ''file.txt'', data = [2]\<rparr>]"
proof -
  have d: "distinct (map filename
     [\<lparr>filename = ''File.txt'', data = [1]\<rparr>, \<lparr>filename = ''file.txt'', data = [2]\<rparr>])"
    by simp
  show ?thesis
    using d dedup_distinct_names_unchanged [OF d] by simp
qed

end
